theory Spec2Isabelle
  imports Main
begin

section \<open>Text: the string operations the bot uses\<close>

text \<open>
  A Python \<open>str\<close> whose characters matter (recognised text, the words, paths) is the
  list of its Unicode code points. Names that are only compared (OBS inputs, scenes,
  messages) stay \<^typ>\<open>string\<close>. \<open>u\<close> writes an ASCII literal as code points.
\<close>

type_synonym str = "int list"

definition u :: "string \<Rightarrow> str" where
  "u s = map of_char s"

text \<open>
  The characters \<open>str.split()\<close>, \<open>str.strip()\<close> and \<open>str.isspace()\<close> take for
  whitespace: U+0009 to U+000D, U+001C to U+0020, U+0085, U+00A0, U+1680, U+2000 to
  U+200A, U+2028, U+2029, U+202F, U+205F and U+3000.
\<close>

definition isspace :: "int \<Rightarrow> bool" where
  "isspace n =
     ((9 \<le> n \<and> n \<le> 13) \<or> (28 \<le> n \<and> n \<le> 32) \<or> n = 133 \<or> n = 160 \<or> n = 5760
      \<or> (8192 \<le> n \<and> n \<le> 8202) \<or> n = 8232 \<or> n = 8233 \<or> n = 8239 \<or> n = 8287
      \<or> n = 12288)"

text \<open>
  \<open>str.lower()\<close> follows the case tables of Unicode, which are not written out here:
  it is a parameter, \<open>str_lower\<close> of the environment below. On text that is all ASCII
  it is \<open>ascii_lower\<close>, which the examples use.
\<close>

definition ascii_lower :: "str \<Rightarrow> str" where
  "ascii_lower s = map (\<lambda>n. if 65 \<le> n \<and> n \<le> 90 then n + 32 else n) s"

definition strip :: "str \<Rightarrow> str" where
  "strip s = rev (dropWhile isspace (rev (dropWhile isspace s)))"

text \<open>
  \<open>str.split()\<close> with no argument: skip a run of whitespace, take the characters up to
  the next whitespace as one token, repeat. No token is empty.
\<close>

function str_split :: "str \<Rightarrow> str list" where
  "str_split s =
     (let s' = dropWhile isspace s in
      if s' = [] then []
      else takeWhile (\<lambda>c. \<not> isspace c) s' # str_split (dropWhile (\<lambda>c. \<not> isspace c) s'))"
  by pat_completeness auto
termination
proof (relation "measure length")
  show "wf (measure length)" by simp
next
  fix s s' :: str
  assume s': "s' = dropWhile isspace s" and ne: "s' \<noteq> []"
  from ne obtain c cs where cs: "s' = c # cs" by (cases s') auto
  have "\<not> isspace (hd s')" using s' ne hd_dropWhile [of isspace s] by simp
  then have "\<not> isspace c" using cs by simp
  then have "dropWhile (\<lambda>c. \<not> isspace c) s' = dropWhile (\<lambda>c. \<not> isspace c) cs"
    using cs by simp
  moreover have "length (dropWhile (\<lambda>c. \<not> isspace c) cs) \<le> length cs"
    by (rule length_dropWhile_le)
  moreover have "length s' \<le> length s" using s' by (simp add: length_dropWhile_le)
  ultimately show "(dropWhile (\<lambda>c. \<not> isspace c) s', s) \<in> measure length"
    using cs by simp
qed

declare str_split.simps [simp del]

text \<open>
  \<open>pathlib\<close>: \<open>Path.name\<close> is the last component of a path, \<open>Path.suffix\<close> the part of the
  name from its last dot on, empty when the name has no dot, starts with its only dot or
  ends with a dot.
\<close>

definition path_name :: "str \<Rightarrow> str" where
  "path_name p = rev (takeWhile (\<lambda>n. n \<noteq> of_char CHR ''/'') (rev p))"

definition path_suffix :: "str \<Rightarrow> str" where
  "path_suffix p =
     (let name = path_name p;
          ext = rev (takeWhile (\<lambda>n. n \<noteq> of_char CHR ''.'') (rev name))
      in if of_char CHR ''.'' \<in> set name \<and> length ext + 1 < length name \<and> ext \<noteq> []
         then of_char CHR ''.'' # ext else [])"

section \<open>Configuration, exceptions and the word list\<close>

text \<open>The fields of the \<open>argparse\<close> namespace that the modelled methods read.\<close>

record cfg =
  mic_source_name :: string
  cat_source_name :: string
  cat_folder :: str
  swear_list :: "str option"
  cat_visible_seconds :: int

text \<open>The requests \<open>self.ws\<close> sends to OBS while censoring, with their arguments.\<close>

datatype call =
    SetInputMute string bool
  | SetInputSettings string str bool
  | SetSceneItemEnabled string int bool

text \<open>
  Exceptions as values. \<open>ObsError\<close> is whatever a request to OBS raises, \<open>OSError\<close> a
  failing call of the operating system, \<open>UnicodeDecodeError\<close> what reading a file
  that is not text raises, \<open>ValueError\<close> and \<open>OverflowError\<close> what \<open>time.sleep\<close>
  raises on a negative duration and on one beyond the range of the C time type,
  \<open>DecoderError\<close> whatever the recogniser or \<open>json.loads\<close> raises.
\<close>

datatype exn =
    ObsError call
  | OSError
  | UnicodeDecodeError
  | SystemExit string
  | ValueError
  | OverflowError
  | DecoderError

definition DEFAULT_SWEAR_WORDS :: "str set" where
  "DEFAULT_SWEAR_WORDS =
     {u ''fuck'', u ''shit'', u ''bitch'', u ''asshole'', u ''bastard'', u ''damn'', u ''crap'',
      u ''dick'', u ''piss'', u ''bollocks'', u ''bugger'', u ''bloody'', u ''hell''}"

text \<open>
  The file system at start-up, as \<open>stat\<close> sees a path: nothing there (the errors
  \<open>ENOENT\<close>, \<open>ENOTDIR\<close>, \<open>EBADF\<close>, \<open>ELOOP\<close>), a failure of another kind (a name too
  long, a folder that may not be searched), a directory, or a regular file. Reading a
  regular file gives its lines (each with its line end), or raises: \<open>OSError\<close> when it
  cannot be opened, \<open>UnicodeDecodeError\<close> when it cannot be decoded.
\<close>

datatype fs_node = Missing | StatFails | Directory | RegularFile "exn + str list"

type_synonym filesystem = "str \<Rightarrow> fs_node"

text \<open>
  \<open>Path.is_file()\<close>: false where nothing is there, the answer of \<open>stat\<close> where
  something is; any other failure of \<open>stat\<close> is raised as \<open>OSError\<close>.
\<close>

definition is_file :: "filesystem \<Rightarrow> str \<Rightarrow> exn + bool" where
  "is_file fs p =
     (case fs p of
        Missing \<Rightarrow> Inr False
      | StatFails \<Rightarrow> Inl OSError
      | Directory \<Rightarrow> Inr False
      | RegularFile ls \<Rightarrow> Inr True)"

definition read_lines :: "filesystem \<Rightarrow> str \<Rightarrow> exn + str list" where
  "read_lines fs p = (case fs p of RegularFile ls \<Rightarrow> ls | _ \<Rightarrow> Inl OSError)"

text \<open>
  \<open>CensorBot._load_swear_words\<close>, given \<open>str.lower\<close>. A \<open>Path\<close> is always true in a
  condition, so \<open>cfg.swear_list and ...\<close> only tests that the option was given. The
  method prints nothing; its result is the word set or the exception that leaves it.
\<close>

definition load_swear_words :: "(str \<Rightarrow> str) \<Rightarrow> filesystem \<Rightarrow> cfg \<Rightarrow> exn + str set" where
  "load_swear_words low fs c =
     (let words = DEFAULT_SWEAR_WORDS in
      case swear_list c of
        None \<Rightarrow> Inr words
      | Some p \<Rightarrow>
          (case is_file fs p of
             Inl x \<Rightarrow> Inl x
           | Inr False \<Rightarrow> Inr words
           | Inr True \<Rightarrow>
               (case read_lines fs p of
                  Inl x \<Rightarrow> Inl x
                | Inr f \<Rightarrow> Inr (words \<union> (\<lambda>w. low (strip w)) ` {w \<in> set f. strip w \<noteq> []}))))"

section \<open>The frame queue\<close>

text \<open>
  \<open>queue.Queue(maxsize)\<close> of the standard library: a FIFO with a size limit, where a
  limit of zero or less means no limit. \<open>put\<close> on a full queue blocks the caller until
  a consumer takes an item; here the blocked call is the result \<open>None\<close>.
  \<open>get(timeout)\<close> on an empty queue raises \<open>queue.Empty\<close> when the timeout ends, here
  the result \<open>None\<close>.
\<close>

record 'a pyqueue =
  maxsize :: int
  items :: "'a list"

definition Queue :: "int \<Rightarrow> 'a pyqueue" where
  "Queue n = \<lparr>maxsize = n, items = []\<rparr>"

definition qsize :: "'a pyqueue \<Rightarrow> nat" where
  "qsize q = length (items q)"

definition full :: "'a pyqueue \<Rightarrow> bool" where
  "full q = (0 < maxsize q \<and> maxsize q \<le> int (qsize q))"

definition put :: "'a \<Rightarrow> 'a pyqueue \<Rightarrow> 'a pyqueue option" where
  "put x q = (if full q then None else Some (q\<lparr>items := items q @ [x]\<rparr>))"

definition get :: "'a pyqueue \<Rightarrow> ('a \<times> 'a pyqueue) option" where
  "get q = (case items q of [] \<Rightarrow> None | x # xs \<Rightarrow> Some (x, q\<lparr>items := xs\<rparr>))"

section \<open>OBS, the environment and the state of the bot\<close>

text \<open>
  What OBS holds at the other end of \<open>self.ws\<close>: which inputs are muted, which scene
  items are enabled, and the \<open>local_file\<close> setting of each input. A request that
  succeeds changes it; a request that raises changes nothing.
\<close>

record obs =
  muted :: "string \<Rightarrow> bool"
  enabled :: "string \<times> int \<Rightarrow> bool"
  local_file :: "string \<Rightarrow> str option"

fun obs_apply :: "call \<Rightarrow> obs \<Rightarrow> obs" where
  "obs_apply (SetInputMute name b) ob = ob\<lparr>muted := (muted ob)(name := b)\<rparr>"
| "obs_apply (SetInputSettings name path ov) ob =
     ob\<lparr>local_file := (local_file ob)(name \<mapsto> path)\<rparr>"
| "obs_apply (SetSceneItemEnabled scene item b) ob =
     ob\<lparr>enabled := (enabled ob)((scene, item) := b)\<rparr>"

text \<open>
  Everything the bot does to the outside while censoring, in order: a request to OBS
  and whether it succeeded, a call of \<open>_pick_cat_video\<close> and what it gave, a
  \<open>time.sleep\<close> that returned.
\<close>

datatype event =
    Request call bool
  | PickCatVideo "exn + str"
  | Sleep int

fun obs_step :: "event \<Rightarrow> obs \<Rightarrow> obs" where
  "obs_step (Request c ok) ob = (if ok then obs_apply c ob else ob)"
| "obs_step (PickCatVideo r) ob = ob"
| "obs_step (Sleep n) ob = ob"

text \<open>The states OBS goes through along a list of events, the starting state first.\<close>

fun obs_states :: "obs \<Rightarrow> event list \<Rightarrow> obs list" where
  "obs_states ob [] = [ob]"
| "obs_states ob (ev # evs) = ob # obs_states (obs_step ev ob) evs"

text \<open>The lines the bot prints.\<close>

datatype line =
    MadeBy
  | Connected
  | Status
  | Result str
  | Detected "str set"
  | Sneezing str
  | Unmuted

type_synonym bytes = "char list"

text \<open>
  What the recogniser does with one block of audio: it raises, it reaches no utterance
  boundary (\<open>AcceptWaveform\<close> false), or it reaches one and \<open>Result()\<close> parses to a
  dictionary whose \<open>get("text", "")\<close> is the given text.
\<close>

datatype recog = Raises | Partial | Final str

text \<open>
  The environment, as oracles. Each may depend on what happened before: \<open>ws_ok\<close> says
  whether a request succeeds after the given events, \<open>iterdir\<close> lists a folder (the
  paths as \<open>str(p)\<close> gives them, \<open>None\<close> when listing raises), \<open>randbelow\<close> is the random
  source of \<open>random.choice\<close>, \<open>sleep_ok\<close> says whether the operating system accepts
  a sleep of the given length, \<open>accept_waveform\<close> is the recogniser after the blocks it
  was given so far, \<open>str_lower\<close> is \<open>str.lower\<close>.
\<close>

record env =
  ws_ok :: "event list \<Rightarrow> call \<Rightarrow> bool"
  iterdir :: "event list \<Rightarrow> str \<Rightarrow> str list option"
  randbelow :: "event list \<Rightarrow> nat \<Rightarrow> nat"
  sleep_ok :: "event list \<Rightarrow> int \<Rightarrow> bool"
  accept_waveform :: "bytes list \<Rightarrow> bytes \<Rightarrow> recog"
  str_lower :: "str \<Rightarrow> str"

text \<open>
  The attributes of \<open>CensorBot\<close> (\<open>silence\<close> and \<open>stop_event\<close> are \<open>threading.Event\<close>s,
  a flag each), with the outside world it acts on: \<open>heard\<close> are the blocks given to the
  recogniser, \<open>ws\<close> the state of OBS, \<open>trace\<close> the events so far, \<open>stdout\<close> the lines
  printed.
\<close>

record bot =
  silence :: bool
  stop_event :: bool
  audio_queue :: "bytes pyqueue"
  swear_words :: "str set"
  scene_name :: string
  cat_item_id :: int
  heard :: "bytes list"
  ws :: obs
  trace :: "event list"
  stdout :: "line list"

text \<open>
  \<open>CensorBot.__init__\<close> followed by the first line of \<open>start\<close>. The scene name and the
  scene item id are what \<open>_prepare_scene_items\<close> reads from OBS, taken as given here.
\<close>

definition new_bot :: "env \<Rightarrow> filesystem \<Rightarrow> cfg \<Rightarrow> string \<Rightarrow> int \<Rightarrow> obs \<Rightarrow> exn + bot" where
  "new_bot e fs c scene item ob =
     (case load_swear_words (str_lower e) fs c of
        Inl x \<Rightarrow> Inl x
      | Inr words \<Rightarrow>
          Inr \<lparr>silence = False, stop_event = False, audio_queue = Queue 0,
               swear_words = words, scene_name = scene, cat_item_id = item,
               heard = [], ws = ob, trace = [], stdout = [MadeBy, Connected]\<rparr>)"

section \<open>Audio capture\<close>

text \<open>\<open>CensorBot._audio_callback\<close>; \<open>None\<close> when the \<open>put\<close> blocks.\<close>

definition audio_callback :: "bytes \<Rightarrow> bool \<Rightarrow> bot \<Rightarrow> bot option" where
  "audio_callback indata status s =
     (let s1 = (if status then s\<lparr>stdout := stdout s @ [Status]\<rparr> else s) in
      case put indata (audio_queue s1) of
        None \<Rightarrow> None
      | Some q \<Rightarrow> Some (s1\<lparr>audio_queue := q\<rparr>))"

text \<open>The capture stream delivering blocks one after the other, nothing being consumed.\<close>

fun capture :: "(bytes \<times> bool) list \<Rightarrow> bot \<Rightarrow> bot option" where
  "capture [] s = Some s"
| "capture ((indata, status) # bs) s =
     (case audio_callback indata status s of
        None \<Rightarrow> None
      | Some s1 \<Rightarrow> capture bs s1)"

section \<open>OBS actions\<close>

text \<open>
  One request to OBS. It is recorded in the trace with its outcome; when it raises,
  the state of OBS is unchanged.
\<close>

definition request :: "env \<Rightarrow> call \<Rightarrow> bot \<Rightarrow> exn option \<times> bot" where
  "request e c s =
     (if ws_ok e (trace s) c
      then (None, s\<lparr>ws := obs_apply c (ws s), trace := trace s @ [Request c True]\<rparr>)
      else (Some (ObsError c), s\<lparr>trace := trace s @ [Request c False]\<rparr>))"

text \<open>Statement sequencing: what follows runs only when nothing was raised.\<close>

definition andthen :: "exn option \<times> bot \<Rightarrow> (bot \<Rightarrow> exn option \<times> bot) \<Rightarrow> exn option \<times> bot" where
  "andthen r f = (case r of (None, s) \<Rightarrow> f s | (Some x, s) \<Rightarrow> (Some x, s))"

definition video_suffixes :: "str set" where
  "video_suffixes = {u ''.mp4'', u ''.mov'', u ''.mkv'', u ''.webm''}"

text \<open>
  \<open>CensorBot._pick_cat_video\<close>. \<open>random.choice(vids)\<close> is \<open>vids[k]\<close> for a random
  \<open>k\<close> below \<open>len(vids)\<close>.
\<close>

definition pick_cat_video :: "env \<Rightarrow> cfg \<Rightarrow> bot \<Rightarrow> (exn + str) \<times> bot" where
  "pick_cat_video e c s =
     (let r = (case iterdir e (trace s) (cat_folder c) of
                 None \<Rightarrow> Inl OSError
               | Some ps \<Rightarrow>
                   (let vids = filter (\<lambda>p. str_lower e (path_suffix p) \<in> video_suffixes) ps in
                    if vids = [] then Inl (SystemExit ''[ERR] No video files found in cat folder'')
                    else Inr (vids ! (randbelow e (trace s) (length vids) mod length vids))))
      in (r, s\<lparr>trace := trace s @ [PickCatVideo r]\<rparr>))"

text \<open>\<open>CensorBot._set_cat_source_file\<close>.\<close>

definition set_cat_source_file :: "env \<Rightarrow> cfg \<Rightarrow> str \<Rightarrow> bot \<Rightarrow> exn option \<times> bot" where
  "set_cat_source_file e c path s = request e (SetInputSettings (cat_source_name c) path False) s"

text \<open>
  \<open>time.sleep\<close> of a whole number of seconds: a negative duration raises
  \<open>ValueError\<close>, one whose nanoseconds do not fit the 64-bit C time type raises
  \<open>OverflowError\<close>, one the operating system refuses raises \<open>OSError\<close>.
\<close>

definition sleep :: "env \<Rightarrow> int \<Rightarrow> bot \<Rightarrow> exn option \<times> bot" where
  "sleep e secs s =
     (if secs < 0 then (Some ValueError, s)
      else if 9223372036 < secs then (Some OverflowError, s)
      else if \<not> sleep_ok e (trace s) secs then (Some OSError, s)
      else (None, s\<lparr>trace := trace s @ [Sleep secs]\<rparr>))"

text \<open>The \<open>try\<close> block of \<open>_trigger_censor\<close>.\<close>

definition trigger_try :: "env \<Rightarrow> cfg \<Rightarrow> bot \<Rightarrow> exn option \<times> bot" where
  "trigger_try e c s =
     andthen (request e (SetInputMute (mic_source_name c) True) s) (\<lambda>s1.
       case pick_cat_video e c s1 of
         (Inl x, s2) \<Rightarrow> (Some x, s2)
       | (Inr video_path, s2) \<Rightarrow>
           andthen (set_cat_source_file e c video_path s2) (\<lambda>s3.
           andthen (request e (SetSceneItemEnabled (scene_name s3) (cat_item_id s3) True) s3) (\<lambda>s4.
           sleep e (cat_visible_seconds c)
             (s4\<lparr>stdout := stdout s4 @ [Sneezing (path_name video_path)]\<rparr>))))"

text \<open>The \<open>finally\<close> block of \<open>_trigger_censor\<close>.\<close>

definition trigger_finally :: "env \<Rightarrow> cfg \<Rightarrow> bot \<Rightarrow> exn option \<times> bot" where
  "trigger_finally e c s =
     andthen (request e (SetSceneItemEnabled (scene_name s) (cat_item_id s) False) s) (\<lambda>s1.
     andthen (request e (SetInputMute (mic_source_name c) False) s1) (\<lambda>s2.
     (None, s2\<lparr>silence := False, stdout := stdout s2 @ [Unmuted]\<rparr>)))"

text \<open>
  \<open>CensorBot._trigger_censor\<close>. The \<open>finally\<close> block runs however the \<open>try\<close> block
  ends; an exception of the \<open>try\<close> block is raised again after it, unless the
  \<open>finally\<close> block raises one itself, which then is the one that leaves the method.
\<close>

definition trigger_censor :: "env \<Rightarrow> cfg \<Rightarrow> bot \<Rightarrow> exn option \<times> bot" where
  "trigger_censor e c s =
     (if silence s then (None, s)
      else
        (case trigger_try e c (s\<lparr>silence := True\<rparr>) of
           (r, s1) \<Rightarrow>
             (case trigger_finally e c s1 of
                (Some x, s2) \<Rightarrow> (Some x, s2)
              | (None, s2) \<Rightarrow> (r, s2))))"

section \<open>The recognition loop\<close>

text \<open>The set \<open>bad\<close> of \<open>_recognition_loop\<close>, for a text already in lower case.\<close>

definition bad :: "str \<Rightarrow> str set \<Rightarrow> str set" where
  "bad text words = set (str_split text) \<inter> words"

text \<open>
  One pass through the body of the \<open>while\<close> loop of \<open>_recognition_loop\<close>. Nothing in
  the body catches an exception other than \<open>queue.Empty\<close>.
\<close>

definition loop_body :: "env \<Rightarrow> cfg \<Rightarrow> bot \<Rightarrow> exn option \<times> bot" where
  "loop_body e c s =
     (case get (audio_queue s) of
        None \<Rightarrow> (None, s)
      | Some (data, q) \<Rightarrow>
          (let s1 = s\<lparr>audio_queue := q\<rparr> in
           case accept_waveform e (heard s1) data of
             Raises \<Rightarrow> (Some DecoderError, s1)
           | Partial \<Rightarrow> (None, s1\<lparr>heard := heard s1 @ [data]\<rparr>)
           | Final t \<Rightarrow>
               (let s2 = s1\<lparr>heard := heard s1 @ [data], stdout := stdout s1 @ [Result t]\<rparr>;
                    text = str_lower e t
                in if text \<noteq> [] then
                     (if bad text (swear_words s2) \<noteq> {}
                      then trigger_censor e c
                             (s2\<lparr>stdout := stdout s2 @ [Detected (bad text (swear_words s2))]\<rparr>)
                      else (None, s2))
                   else (None, s2))))"

text \<open>
  \<open>CensorBot._recognition_loop\<close>, for at most \<open>n\<close> passes. The loop of the source ends
  only when \<open>stop_event\<close> is set or an exception leaves the body; \<open>Running\<close> says that
  after \<open>n\<close> passes it is still going.
\<close>

datatype loop_status = Running | Stopped | Died exn

fun recognition_loop :: "env \<Rightarrow> cfg \<Rightarrow> nat \<Rightarrow> bot \<Rightarrow> loop_status \<times> bot" where
  "recognition_loop e c 0 s = (if stop_event s then Stopped else Running, s)"
| "recognition_loop e c (Suc n) s =
     (if stop_event s then (Stopped, s)
      else
        (case loop_body e c s of
           (Some x, s1) \<Rightarrow> (Died x, s1)
         | (None, s1) \<Rightarrow> recognition_loop e c n s1))"




section \<open>Vocabulary of the statements\<close>

text \<open>The four requests of \<open>_trigger_censor\<close>, the scene item of the overlay.\<close>

abbreviation mute_mic :: "cfg \<Rightarrow> bool \<Rightarrow> call" where
  "mute_mic c b \<equiv> SetInputMute (mic_source_name c) b"

abbreviation enable_cat :: "bot \<Rightarrow> bool \<Rightarrow> call" where
  "enable_cat s b \<equiv> SetSceneItemEnabled (scene_name s) (cat_item_id s) b"

abbreviation set_file :: "cfg \<Rightarrow> str \<Rightarrow> call" where
  "set_file c v \<equiv> SetInputSettings (cat_source_name c) v False"

abbreviation cat_item :: "bot \<Rightarrow> string \<times> int" where
  "cat_item s \<equiv> (scene_name s, cat_item_id s)"

text \<open>The events between an earlier state and a later one.\<close>

definition new_events :: "bot \<Rightarrow> bot \<Rightarrow> event list" where
  "new_events s s' = drop (length (trace s)) (trace s')"

text \<open>A state of OBS is covered when the overlay is enabled only while the microphone is muted.\<close>

definition covered :: "cfg \<Rightarrow> bot \<Rightarrow> obs \<Rightarrow> bool" where
  "covered c s ob = (enabled ob (cat_item s) \<longrightarrow> muted ob (mic_source_name c))"

fun is_pick :: "event \<Rightarrow> bool" where
  "is_pick (PickCatVideo r) = True"
| "is_pick ev = False"

fun is_mute :: "bool \<Rightarrow> event \<Rightarrow> bool" where
  "is_mute b (Request (SetInputMute name b') ok) = (b = b')"
| "is_mute b ev = False"

text \<open>
  The state in which the loop body calls \<open>_trigger_censor\<close>, after it took the block
  \<open>data\<close> from the queue (leaving \<open>q\<close>) and the recogniser gave the text \<open>t\<close>.
\<close>

definition at_detection :: "env \<Rightarrow> bot \<Rightarrow> bytes \<Rightarrow> bytes pyqueue \<Rightarrow> str \<Rightarrow> bot" where
  "at_detection e s data q t =
     s\<lparr>audio_queue := q, heard := heard s @ [data],
       stdout := stdout s @ [Result t, Detected (bad (str_lower e t) (swear_words s))]\<rparr>"

text \<open>Whether a \<open>time.sleep\<close> of the given length, after the given events, returns.\<close>

definition sleep_returns :: "env \<Rightarrow> event list \<Rightarrow> int \<Rightarrow> bool" where
  "sleep_returns e tr secs = (0 \<le> secs \<and> secs \<le> 9223372036 \<and> sleep_ok e tr secs)"



abbreviation no_video_files :: exn where
  "no_video_files \<equiv> SystemExit ''[ERR] No video files found in cat folder''"

section \<open>Example inputs\<close>

definition example_cfg :: cfg where
  "example_cfg =
     \<lparr>mic_source_name = ''Mic'', cat_source_name = ''Cat'', cat_folder = u ''cats'',
      swear_list = Some (u ''missing.txt''), cat_visible_seconds = 4\<rparr>"

text \<open>
  OBS with nothing muted and nothing enabled; an environment in which every request
  and every sleep succeeds, the folder holds one video and the recogniser hears each
  block as the ASCII text it spells; the bot as it is built with the default words.
\<close>

definition quiet_obs :: obs where
  "quiet_obs = \<lparr>muted = (\<lambda>_. False), enabled = (\<lambda>_. False), local_file = (\<lambda>_. None)\<rparr>"

definition example_env :: env where
  "example_env =
     \<lparr>ws_ok = (\<lambda>_ _. True),
      iterdir = (\<lambda>_ _. Some [u ''cats/sneeze.mp4'', u ''cats/notes.txt'']),
      randbelow = (\<lambda>_ _. 0),
      sleep_ok = (\<lambda>_ _. True),
      accept_waveform = (\<lambda>_ data. Final (u data)),
      str_lower = ascii_lower\<rparr>"

definition example_bot :: bot where
  "example_bot =
     \<lparr>silence = False, stop_event = False, audio_queue = Queue 0,
      swear_words = DEFAULT_SWEAR_WORDS, scene_name = ''Scene'', cat_item_id = 7,
      heard = [], ws = quiet_obs, trace = [], stdout = [MadeBy, Connected]\<rparr>"

text \<open>
  Variations: a folder without a video; the mute request, or the request that hides the
  overlay, raising; both a folder without a video and a failing hide request; a
  recogniser that raises on the block \<open>zzz\<close>; bots with two blocks waiting in the
  queue; a file system with nothing in it, and one in which, besides, \<open>stat\<close> fails on a
  name of more than 255 characters (\<open>ENAMETOOLONG\<close>), with a configuration whose
  swear-list path is the letter \<open>x\<close>, code point 120, 300 times.
\<close>

definition no_video_env :: env where
  "no_video_env = example_env\<lparr>iterdir := (\<lambda>_ _. Some [u ''cats/notes.txt''])\<rparr>"

definition mute_fails_env :: env where
  "mute_fails_env = example_env\<lparr>ws_ok := (\<lambda>_ c. c \<noteq> SetInputMute ''Mic'' True)\<rparr>"

definition hide_fails_env :: env where
  "hide_fails_env = example_env\<lparr>ws_ok := (\<lambda>_ c. c \<noteq> SetSceneItemEnabled ''Scene'' 7 False)\<rparr>"

definition no_video_hide_fails_env :: env where
  "no_video_hide_fails_env =
     no_video_env\<lparr>ws_ok := (\<lambda>_ c. c \<noteq> SetSceneItemEnabled ''Scene'' 7 False)\<rparr>"

definition deaf_env :: env where
  "deaf_env =
     example_env\<lparr>accept_waveform := (\<lambda>_ data. if data = ''zzz'' then Raises else Final (u data))\<rparr>"

definition listening_bot :: bot where
  "listening_bot =
     example_bot\<lparr>audio_queue := \<lparr>maxsize = 0, items = [''well damn it'', ''oh shit'']\<rparr>\<rparr>"

definition noisy_bot :: bot where
  "noisy_bot = example_bot\<lparr>audio_queue := \<lparr>maxsize = 0, items = [''zzz'', ''damn'']\<rparr>\<rparr>"

definition empty_fs :: filesystem where
  "empty_fs = (\<lambda>_. Missing)"

definition failing_fs :: filesystem where
  "failing_fs = (\<lambda>p. if 255 < length (path_name p) then StatFails else Missing)"

definition long_name_cfg :: cfg where
  "long_name_cfg = example_cfg\<lparr>swear_list := Some (replicate 300 120)\<rparr>"

section \<open>Lemmas: the text operations\<close>








lemma isspace_ascii_lower [simp]:
  "isspace (if 65 \<le> n \<and> n \<le> 90 then n + 32 else n) = isspace n" for n :: int
  by (auto simp: isspace_def)


section \<open>Lemmas: the ways through \<open>_trigger_censor\<close> and the loop\<close>

lemma pick_cat_video_trace:
  "pick_cat_video e c s = (p, s1) \<Longrightarrow> s1 = s\<lparr>trace := trace s @ [PickCatVideo p]\<rparr>"
  by (auto simp: pick_cat_video_def Let_def)

lemma trigger_try_cases:
  assumes "trigger_try e c s = (r, s1)"
  obtains
    (mute_fails)
      "r = Some (ObsError (mute_mic c True))"
      "s1 = s\<lparr>trace := trace s @ [Request (mute_mic c True) False]\<rparr>"
  | (pick_fails) x where
      "r = Some x"
      "s1 = s\<lparr>ws := obs_apply (mute_mic c True) (ws s),
               trace := trace s @ [Request (mute_mic c True) True, PickCatVideo (Inl x)]\<rparr>"
  | (file_fails) v where
      "r = Some (ObsError (set_file c v))"
      "s1 = s\<lparr>ws := obs_apply (mute_mic c True) (ws s),
               trace := trace s @ [Request (mute_mic c True) True, PickCatVideo (Inr v),
                                   Request (set_file c v) False]\<rparr>"
  | (show_fails) v where
      "r = Some (ObsError (enable_cat s True))"
      "s1 = s\<lparr>ws := obs_apply (set_file c v) (obs_apply (mute_mic c True) (ws s)),
               trace := trace s @ [Request (mute_mic c True) True, PickCatVideo (Inr v),
                                   Request (set_file c v) True,
                                   Request (enable_cat s True) False]\<rparr>"
  | (sleep_fails) v x where
      "r = Some x"
      "\<not> sleep_returns e (trace s @ [Request (mute_mic c True) True, PickCatVideo (Inr v),
                                      Request (set_file c v) True,
                                      Request (enable_cat s True) True])
           (cat_visible_seconds c)"
      "s1 = s\<lparr>ws := obs_apply (enable_cat s True)
                       (obs_apply (set_file c v) (obs_apply (mute_mic c True) (ws s))),
               trace := trace s @ [Request (mute_mic c True) True, PickCatVideo (Inr v),
                                   Request (set_file c v) True,
                                   Request (enable_cat s True) True],
               stdout := stdout s @ [Sneezing (path_name v)]\<rparr>"
  | (held) v where
      "r = None"
      "sleep_returns e (trace s @ [Request (mute_mic c True) True, PickCatVideo (Inr v),
                                    Request (set_file c v) True,
                                    Request (enable_cat s True) True])
         (cat_visible_seconds c)"
      "s1 = s\<lparr>ws := obs_apply (enable_cat s True)
                       (obs_apply (set_file c v) (obs_apply (mute_mic c True) (ws s))),
               trace := trace s @ [Request (mute_mic c True) True, PickCatVideo (Inr v),
                                   Request (set_file c v) True,
                                   Request (enable_cat s True) True,
                                   Sleep (cat_visible_seconds c)],
               stdout := stdout s @ [Sneezing (path_name v)]\<rparr>"
proof (cases "ws_ok e (trace s) (mute_mic c True)")
  case False
  with assms show thesis
    by (intro mute_fails) (auto simp: trigger_try_def andthen_def request_def)
next
  case mute: True
  define sa where "sa = s\<lparr>ws := obs_apply (mute_mic c True) (ws s),
                          trace := trace s @ [Request (mute_mic c True) True]\<rparr>"
  obtain p sb where pick: "pick_cat_video e c sa = (p, sb)"
    by (cases "pick_cat_video e c sa")
  from pick_cat_video_trace [OF pick]
  have sb: "sb = sa\<lparr>trace := trace sa @ [PickCatVideo p]\<rparr>" .
  from assms mute pick
  have after_pick: "(r, s1) =
      (case p of
         Inl x \<Rightarrow> (Some x, sb)
       | Inr video_path \<Rightarrow>
           andthen (set_cat_source_file e c video_path sb) (\<lambda>s3.
           andthen (request e (SetSceneItemEnabled (scene_name s3) (cat_item_id s3) True) s3) (\<lambda>s4.
           sleep e (cat_visible_seconds c)
             (s4\<lparr>stdout := stdout s4 @ [Sneezing (path_name video_path)]\<rparr>))))"
    by (simp add: trigger_try_def andthen_def request_def sa_def)
  show thesis
  proof (cases p)
    case (Inl x)
    with after_pick sb show thesis
      by (intro pick_fails [of x]) (auto simp: sa_def)
  next
    case (Inr v)
    show thesis
    proof (cases "ws_ok e (trace sb) (set_file c v)")
      case False
      with Inr after_pick sb show thesis
        by (intro file_fails [of v])
           (auto simp: sa_def andthen_def request_def set_cat_source_file_def)
    next
      case filed: True
      define sc where "sc = sb\<lparr>ws := obs_apply (set_file c v) (ws sb),
                              trace := trace sb @ [Request (set_file c v) True]\<rparr>"
      show thesis
      proof (cases "ws_ok e (trace sc) (enable_cat s True)")
        case False
        with Inr after_pick sb filed show thesis
          by (intro show_fails [of v])
             (auto simp: sa_def sc_def andthen_def request_def set_cat_source_file_def)
      next
        case shown: True
        define sd where "sd = sc\<lparr>ws := obs_apply (enable_cat s True) (ws sc),
                                trace := trace sc @ [Request (enable_cat s True) True],
                                stdout := stdout sc @ [Sneezing (path_name v)]\<rparr>"
        from Inr after_pick sb filed shown
        have after_show: "(r, s1) = sleep e (cat_visible_seconds c) sd"
          by (simp add: sa_def sc_def sd_def andthen_def request_def set_cat_source_file_def)
        have tr: "trace sd = trace s @ [Request (mute_mic c True) True, PickCatVideo (Inr v),
                                        Request (set_file c v) True,
                                        Request (enable_cat s True) True]"
          by (simp add: sd_def sc_def sb sa_def Inr)
        show thesis
        proof (cases "sleep_returns e (trace sd) (cat_visible_seconds c)")
          case True
          with after_show have "r = None"
            and "s1 = sd\<lparr>trace := trace sd @ [Sleep (cat_visible_seconds c)]\<rparr>"
            by (auto simp: sleep_def sleep_returns_def split: if_splits)
          with True tr show thesis
            by (intro held [of v]) (auto simp: sd_def sc_def sb sa_def Inr)
        next
          case False
          with after_show obtain x where "r = Some x" and "s1 = sd"
            by (auto simp: sleep_def sleep_returns_def split: if_splits)
          with False tr show thesis
            by (intro sleep_fails [of x v]) (auto simp: sd_def sc_def sb sa_def Inr)
        qed
      qed
    qed
  qed
qed

lemma trigger_finally_cases:
  assumes "trigger_finally e c s = (r, s1)"
  obtains
    (hide_fails)
      "r = Some (ObsError (enable_cat s False))"
      "s1 = s\<lparr>trace := trace s @ [Request (enable_cat s False) False]\<rparr>"
  | (unmute_fails)
      "r = Some (ObsError (mute_mic c False))"
      "s1 = s\<lparr>ws := obs_apply (enable_cat s False) (ws s),
               trace := trace s @ [Request (enable_cat s False) True,
                                   Request (mute_mic c False) False]\<rparr>"
  | (reverted)
      "r = None"
      "s1 = s\<lparr>ws := obs_apply (mute_mic c False) (obs_apply (enable_cat s False) (ws s)),
               trace := trace s @ [Request (enable_cat s False) True,
                                   Request (mute_mic c False) True],
               silence := False,
               stdout := stdout s @ [Unmuted]\<rparr>"
proof (cases "ws_ok e (trace s) (enable_cat s False)")
  case False
  with assms show thesis
    by (intro hide_fails) (auto simp: trigger_finally_def andthen_def request_def)
next
  case hidden: True
  show thesis
  proof (cases "ws_ok e (trace s @ [Request (enable_cat s False) True]) (mute_mic c False)")
    case False
    with assms hidden show thesis
      by (intro unmute_fails) (auto simp: trigger_finally_def andthen_def request_def)
  next
    case True
    with assms hidden show thesis
      by (intro reverted) (auto simp: trigger_finally_def andthen_def request_def)
  qed
qed


lemma trigger_censor_parts:
  assumes "\<not> silence s" and "trigger_censor e c s = (r', s')"
  obtains r s1 r2 where
    "trigger_try e c (s\<lparr>silence := True\<rparr>) = (r, s1)"
    "trigger_finally e c s1 = (r2, s')"
    "r' = (case r2 of Some x \<Rightarrow> Some x | None \<Rightarrow> r)"
proof -
  obtain r s1 where tr: "trigger_try e c (s\<lparr>silence := True\<rparr>) = (r, s1)"
    by (cases "trigger_try e c (s\<lparr>silence := True\<rparr>)")
  obtain r2 s2 where fin: "trigger_finally e c s1 = (r2, s2)"
    by (cases "trigger_finally e c s1")
  from assms tr fin have "s' = s2" and "r' = (case r2 of Some x \<Rightarrow> Some x | None \<Rightarrow> r)"
    by (auto simp: trigger_censor_def split: option.splits)
  with tr fin that show thesis by blast
qed

lemma trigger_try_frame:
  assumes "trigger_try e c s = (r, s1)"
  shows "silence s1 = silence s" and "scene_name s1 = scene_name s"
    and "cat_item_id s1 = cat_item_id s" and "audio_queue s1 = audio_queue s"
    and "stop_event s1 = stop_event s" and "heard s1 = heard s"
    and "swear_words s1 = swear_words s"
  by (rule trigger_try_cases [OF assms]; simp)+


lemma trigger_finally_ok:
  assumes "ws_ok e (trace s) (enable_cat s False)"
    and "ws_ok e (trace s @ [Request (enable_cat s False) True]) (mute_mic c False)"
  shows "trigger_finally e c s =
     (None, s\<lparr>ws := obs_apply (mute_mic c False) (obs_apply (enable_cat s False) (ws s)),
              trace := trace s @ [Request (enable_cat s False) True,
                                  Request (mute_mic c False) True],
              silence := False,
              stdout := stdout s @ [Unmuted]\<rparr>)"
  using assms by (simp add: trigger_finally_def andthen_def request_def)

lemma str_split_Nil: "str_split [] = []"
  by (simp add: str_split.simps)

lemma bad_nonempty: "bad t w \<noteq> {} \<Longrightarrow> t \<noteq> []"
  by (auto simp: bad_def str_split_Nil)

lemma loop_body_detect:
  assumes "get (audio_queue s) = Some (data, q)"
    and "accept_waveform e (heard s) data = Final t"
    and "bad (str_lower e t) (swear_words s) \<noteq> {}"
  shows "loop_body e c s = trigger_censor e c (at_detection e s data q t)"
  using assms bad_nonempty [OF assms(3)]
  by (simp add: loop_body_def at_detection_def Let_def)

lemma recognition_loop_dies:
  assumes "\<not> stop_event s" and "loop_body e c s = (Some x, s1)"
  shows "recognition_loop e c (Suc n) s = (Died x, s1)"
  using assms by simp


lemma new_bot_unbounded:
  "new_bot e fs c scene item ob = Inr s \<Longrightarrow> maxsize (audio_queue s) = 0"
  by (auto simp: new_bot_def Queue_def split: sum.splits)

lemma audio_callback_unbounded:
  assumes "maxsize (audio_queue s) \<le> 0"
  shows "audio_callback indata status s =
    Some (s\<lparr>stdout := (if status then stdout s @ [Status] else stdout s),
            audio_queue := (audio_queue s)\<lparr>items := items (audio_queue s) @ [indata]\<rparr>\<rparr>)"
  using assms by (simp add: audio_callback_def put_def full_def Let_def)

section \<open>Loading the word list\<close>

text \<open>
  C10, as the code has it: the swear-list option is given and its path is not a regular
  file. When nothing is at the path, or a directory, loading gives exactly the built-in
  default set. When \<open>stat\<close> fails on the path in another way, \<open>Path.is_file()\<close> raises
  \<open>OSError\<close>, which leaves \<open>_load_swear_words\<close>: loading fails.
\<close>

theorem load_swear_words_not_a_file:
  assumes "swear_list c = Some p" and "\<forall>ls. fs p \<noteq> RegularFile ls"
  shows "load_swear_words low fs c
           = (if fs p = StatFails then Inl OSError else Inr DEFAULT_SWEAR_WORDS)"
  using assms by (cases "fs p") (simp_all add: load_swear_words_def is_file_def)

theorem load_swear_words_not_a_file_witness:
  "swear_list example_cfg = Some (u ''missing.txt'')
   \<and> empty_fs (u ''missing.txt'') = Missing
   \<and> load_swear_words ascii_lower empty_fs example_cfg = Inr DEFAULT_SWEAR_WORDS"
proof -
  have a: "swear_list example_cfg = Some (u ''missing.txt'')"
    by (simp add: example_cfg_def)
  have b: "\<forall>ls. empty_fs (u ''missing.txt'') \<noteq> RegularFile ls"
    by (simp add: empty_fs_def)
  have c: "empty_fs (u ''missing.txt'') = Missing"
    by (simp add: empty_fs_def)
  from load_swear_words_not_a_file
         [where c = example_cfg and p = "u ''missing.txt''" and fs = empty_fs
            and low = ascii_lower, OF a b] a b c
  show ?thesis by simp
qed

theorem load_swear_words_not_a_file_counterexample:
  "swear_list long_name_cfg = Some (replicate 300 120)
   \<and> is_file failing_fs (replicate 300 120) = Inl OSError
   \<and> load_swear_words ascii_lower failing_fs long_name_cfg = Inl OSError
   \<and> new_bot example_env failing_fs long_name_cfg ''Scene'' 7 quiet_obs = Inl OSError"
proof -
  have a: "swear_list long_name_cfg = Some (replicate 300 120)"
    by (simp add: long_name_cfg_def example_cfg_def)
  have "path_name (replicate 300 120) = replicate 300 120"
    by (simp add: path_name_def)
  then have b: "failing_fs (replicate 300 120) = StatFails"
    by (simp add: failing_fs_def)
  then have c: "is_file failing_fs (replicate 300 120) = Inl OSError"
    by (simp add: is_file_def)
  with a have d: "load_swear_words low failing_fs long_name_cfg = Inl OSError" for low
    by (simp add: load_swear_words_def)
  then have "new_bot example_env failing_fs long_name_cfg ''Scene'' 7 quiet_obs = Inl OSError"
    by (simp add: new_bot_def)
  with a c d show ?thesis by (intro conjI)
qed

section \<open>The trigger: revert, single flight, order\<close>

text \<open>
  C1, as the code has it: in every run of \<open>_trigger_censor\<close> from the idle state in
  which the mute request succeeds and a later step of the \<open>try\<close> block (picking the
  video, setting the file, showing the overlay, the sleep) raises \<open>x\<close>, the \<open>finally\<close>
  block still runs. Provided its two requests, hide and unmute, succeed, the overlay
  scene item ends disabled, the microphone unmuted and the \<open>silence\<close> flag cleared, and
  \<open>x\<close> is the exception that leaves the method. Without that proviso the end state can
  fail: the requests of the \<open>finally\<close> block can raise as well.
\<close>

theorem trigger_censor_reverts:
  assumes idle: "\<not> silence s"
    and mute: "ws_ok e (trace s) (mute_mic c True)"
    and later: "trigger_try e c (s\<lparr>silence := True\<rparr>) = (Some x, s1)"
    and hide: "ws_ok e (trace s1) (enable_cat s False)"
    and unmute: "ws_ok e (trace s1 @ [Request (enable_cat s False) True]) (mute_mic c False)"
  shows "\<exists>s'. trigger_censor e c s = (Some x, s')
           \<and> \<not> enabled (ws s') (cat_item s)
           \<and> \<not> muted (ws s') (mic_source_name c)
           \<and> \<not> silence s'
           \<and> new_events s1 s' = [Request (enable_cat s False) True, Request (mute_mic c False) True]"
proof -
  from trigger_try_frame [OF later]
  have same: "scene_name s1 = scene_name s" "cat_item_id s1 = cat_item_id s"
    by simp_all
  from hide unmute same
  have fin: "trigger_finally e c s1 =
     (None, s1\<lparr>ws := obs_apply (mute_mic c False) (obs_apply (enable_cat s False) (ws s1)),
               trace := trace s1 @ [Request (enable_cat s False) True,
                                    Request (mute_mic c False) True],
               silence := False,
               stdout := stdout s1 @ [Unmuted]\<rparr>)"
    using trigger_finally_ok [of e s1 c] by simp
  from idle later fin show ?thesis
    by (simp add: trigger_censor_def new_events_def)
qed

theorem trigger_censor_reverts_witness:
  "\<not> silence example_bot
   \<and> ws_ok no_video_env (trace example_bot) (mute_mic example_cfg True)
   \<and> fst (trigger_try no_video_env example_cfg (example_bot\<lparr>silence := True\<rparr>)) = Some no_video_files
   \<and> (\<exists>s'. trigger_censor no_video_env example_cfg example_bot = (Some no_video_files, s')
           \<and> \<not> enabled (ws s') (cat_item example_bot)
           \<and> \<not> muted (ws s') (mic_source_name example_cfg)
           \<and> \<not> silence s')"
proof -
  let ?s1 = "snd (trigger_try no_video_env example_cfg (example_bot\<lparr>silence := True\<rparr>))"
  have idle: "\<not> silence example_bot" by code_simp
  have mute: "ws_ok no_video_env (trace example_bot) (mute_mic example_cfg True)" by code_simp
  have x: "fst (trigger_try no_video_env example_cfg (example_bot\<lparr>silence := True\<rparr>)) = Some no_video_files"
    by code_simp
  then have later: "trigger_try no_video_env example_cfg (example_bot\<lparr>silence := True\<rparr>) = (Some no_video_files, ?s1)"
    by (simp add: prod_eq_iff)
  have hide: "ws_ok no_video_env (trace ?s1) (enable_cat example_bot False)" by code_simp
  have unmute: "ws_ok no_video_env (trace ?s1 @ [Request (enable_cat example_bot False) True])
      (mute_mic example_cfg False)" by code_simp
  from trigger_censor_reverts [OF idle mute later hide unmute] idle mute x
  show ?thesis by blast
qed

theorem trigger_censor_reverts_counterexample:
  "silence example_bot = False
   \<and> ws_ok no_video_hide_fails_env (trace example_bot) (SetInputMute ''Mic'' True)
   \<and> fst (trigger_try no_video_hide_fails_env example_cfg (example_bot\<lparr>silence := True\<rparr>))
       = Some no_video_files
   \<and> fst (trigger_censor no_video_hide_fails_env example_cfg example_bot)
       = Some (ObsError (SetSceneItemEnabled ''Scene'' 7 False))
   \<and> trace (snd (trigger_censor no_video_hide_fails_env example_cfg example_bot))
       = [Request (SetInputMute ''Mic'' True) True, PickCatVideo (Inl no_video_files),
          Request (SetSceneItemEnabled ''Scene'' 7 False) False]
   \<and> silence (snd (trigger_censor no_video_hide_fails_env example_cfg example_bot))
   \<and> muted (ws (snd (trigger_censor no_video_hide_fails_env example_cfg example_bot))) ''Mic''"
  by (intro conjI; code_simp)

text \<open>
  C2, as the code has it: with the \<open>silence\<close> flag set, \<open>_trigger_censor\<close> returns at
  once and changes nothing: no request, no event, no line. A call from the idle state is
  a session: its \<open>try\<close> block runs with the flag set, then its \<open>finally\<close> block, and a
  call made between the two, whatever the environment, returns at once. A session sends
  exactly one mute request; it picks a video once when that request succeeds and not at
  all when it raises; it sends one unmute request when the hide request succeeds and
  none when it raises. The flag is cleared at the end exactly when the unmute request
  succeeded; otherwise it stays set and every later call returns at once.
\<close>

theorem trigger_censor_single_flight:
  assumes run: "trigger_censor e c s = (r, s')"
  shows "(silence s \<longrightarrow> r = None \<and> s' = s)
   \<and> (\<not> silence s \<longrightarrow>
        s' = snd (trigger_finally e c (snd (trigger_try e c (s\<lparr>silence := True\<rparr>))))
        \<and> silence (snd (trigger_try e c (s\<lparr>silence := True\<rparr>)))
        \<and> trigger_censor e' c' (snd (trigger_try e c (s\<lparr>silence := True\<rparr>)))
            = (None, snd (trigger_try e c (s\<lparr>silence := True\<rparr>))))
   \<and> (\<not> silence s \<longrightarrow>
        length (filter (is_mute True) (new_events s s')) = 1
        \<and> length (filter is_pick (new_events s s'))
            = (if Request (mute_mic c True) True \<in> set (new_events s s') then 1 else 0)
        \<and> length (filter (is_mute False) (new_events s s'))
            = (if Request (enable_cat s False) True \<in> set (new_events s s') then 1 else 0)
        \<and> (silence s' \<longleftrightarrow> Request (mute_mic c False) True \<notin> set (new_events s s'))
        \<and> (silence s' \<longrightarrow> trigger_censor e' c' s' = (None, s')))"
  (is "?skip \<and> ?busy \<and> ?once")
proof -
  have skip: ?skip
    using run by (auto simp: trigger_censor_def)
  have busy: ?busy
  proof
    assume idle: "\<not> silence s"
    from idle run obtain r1 s1 r2 where tr: "trigger_try e c (s\<lparr>silence := True\<rparr>) = (r1, s1)"
      and fin: "trigger_finally e c s1 = (r2, s')"
      by (rule trigger_censor_parts)
    from trigger_try_frame(1) [OF tr] have "silence s1" by simp
    with tr fin show "s' = snd (trigger_finally e c (snd (trigger_try e c (s\<lparr>silence := True\<rparr>))))
        \<and> silence (snd (trigger_try e c (s\<lparr>silence := True\<rparr>)))
        \<and> trigger_censor e' c' (snd (trigger_try e c (s\<lparr>silence := True\<rparr>)))
            = (None, snd (trigger_try e c (s\<lparr>silence := True\<rparr>)))"
      by (simp add: trigger_censor_def)
  qed
  have once: ?once
  proof
    assume idle: "\<not> silence s"
    from idle run obtain r1 s1 r2 where tr: "trigger_try e c (s\<lparr>silence := True\<rparr>) = (r1, s1)"
      and fin: "trigger_finally e c s1 = (r2, s')"
      by (rule trigger_censor_parts)
    have counts: "length (filter (is_mute True) (new_events s s')) = 1
        \<and> length (filter is_pick (new_events s s'))
            = (if Request (mute_mic c True) True \<in> set (new_events s s') then 1 else 0)
        \<and> length (filter (is_mute False) (new_events s s'))
            = (if Request (enable_cat s False) True \<in> set (new_events s s') then 1 else 0)
        \<and> (silence s' \<longleftrightarrow> Request (mute_mic c False) True \<notin> set (new_events s s'))"
      by (rule trigger_try_cases [OF tr]; rule trigger_finally_cases [OF fin];
          simp add: new_events_def)
    have "silence s' \<longrightarrow> trigger_censor e' c' s' = (None, s')"
      by (simp add: trigger_censor_def)
    with counts show "length (filter (is_mute True) (new_events s s')) = 1
        \<and> length (filter is_pick (new_events s s'))
            = (if Request (mute_mic c True) True \<in> set (new_events s s') then 1 else 0)
        \<and> length (filter (is_mute False) (new_events s s'))
            = (if Request (enable_cat s False) True \<in> set (new_events s s') then 1 else 0)
        \<and> (silence s' \<longleftrightarrow> Request (mute_mic c False) True \<notin> set (new_events s s'))
        \<and> (silence s' \<longrightarrow> trigger_censor e' c' s' = (None, s'))"
      by simp
  qed
  from skip busy once show ?thesis by (intro conjI)
qed

theorem trigger_censor_single_flight_witness:
  "trigger_censor example_env example_cfg (example_bot\<lparr>silence := True\<rparr>)
     = (None, example_bot\<lparr>silence := True\<rparr>)
   \<and> \<not> silence example_bot
   \<and> length (filter is_pick (new_events example_bot (snd (trigger_censor example_env example_cfg example_bot)))) = 1
   \<and> length (filter (is_mute True) (new_events example_bot (snd (trigger_censor example_env example_cfg example_bot)))) = 1
   \<and> length (filter (is_mute False) (new_events example_bot (snd (trigger_censor example_env example_cfg example_bot)))) = 1
   \<and> \<not> silence (snd (trigger_censor example_env example_cfg example_bot))
   \<and> silence (snd (trigger_censor hide_fails_env example_cfg example_bot))
   \<and> trigger_censor example_env example_cfg (snd (trigger_censor hide_fails_env example_cfg example_bot))
       = (None, snd (trigger_censor hide_fails_env example_cfg example_bot))"
proof -
  let ?b = "example_bot\<lparr>silence := True\<rparr>"
  let ?ok = "snd (trigger_censor example_env example_cfg example_bot)"
  let ?stuck = "snd (trigger_censor hide_fails_env example_cfg example_bot)"
  have busy: "silence ?b" by simp
  have idle: "\<not> silence example_bot" by code_simp
  have run0: "trigger_censor example_env example_cfg ?b
      = (fst (trigger_censor example_env example_cfg ?b), snd (trigger_censor example_env example_cfg ?b))"
    by simp
  have run1: "trigger_censor example_env example_cfg example_bot
      = (fst (trigger_censor example_env example_cfg example_bot), ?ok)"
    by simp
  have run2: "trigger_censor hide_fails_env example_cfg example_bot
      = (fst (trigger_censor hide_fails_env example_cfg example_bot), ?stuck)"
    by simp
  have m: "Request (mute_mic example_cfg True) True \<in> set (new_events example_bot ?ok)"
    by code_simp
  have h: "Request (enable_cat example_bot False) True \<in> set (new_events example_bot ?ok)"
    by code_simp
  have um: "Request (mute_mic example_cfg False) True \<in> set (new_events example_bot ?ok)"
    by code_simp
  have no_um: "Request (mute_mic example_cfg False) True \<notin> set (new_events example_bot ?stuck)"
    by code_simp
  from trigger_censor_single_flight [OF run0, of example_env example_cfg] busy
  have "fst (trigger_censor example_env example_cfg ?b) = None
      \<and> snd (trigger_censor example_env example_cfg ?b) = ?b"
    by blast
  then have a: "trigger_censor example_env example_cfg ?b = (None, ?b)"
    by (simp add: prod_eq_iff)
  from trigger_censor_single_flight [OF run1, of example_env example_cfg] idle
  have once: "length (filter (is_mute True) (new_events example_bot ?ok)) = 1
      \<and> length (filter is_pick (new_events example_bot ?ok))
          = (if Request (mute_mic example_cfg True) True \<in> set (new_events example_bot ?ok)
             then 1 else 0)
      \<and> length (filter (is_mute False) (new_events example_bot ?ok))
          = (if Request (enable_cat example_bot False) True \<in> set (new_events example_bot ?ok)
             then 1 else 0)
      \<and> (silence ?ok \<longleftrightarrow> Request (mute_mic example_cfg False) True
             \<notin> set (new_events example_bot ?ok))"
    by blast
  have b1: "length (filter is_pick (new_events example_bot ?ok)) = 1"
    using once m by (simp only: if_True)
  have b2: "length (filter (is_mute True) (new_events example_bot ?ok)) = 1"
    using once by (rule conjunct1)
  have b3: "length (filter (is_mute False) (new_events example_bot ?ok)) = 1"
    using once h by (simp only: if_True)
  have b4: "\<not> silence ?ok"
    using once um by blast
  from trigger_censor_single_flight [OF run2, of example_env example_cfg] idle
  have pin: "(silence ?stuck \<longleftrightarrow> Request (mute_mic example_cfg False) True
             \<notin> set (new_events example_bot ?stuck))
      \<and> (silence ?stuck \<longrightarrow> trigger_censor example_env example_cfg ?stuck = (None, ?stuck))"
    by blast
  with no_um have c1: "silence ?stuck" by blast
  with pin have c2: "trigger_censor example_env example_cfg ?stuck = (None, ?stuck)" by blast
  from a idle b1 b2 b3 b4 c1 c2 show ?thesis by (intro conjI)
qed

theorem trigger_censor_single_flight_counterexample:
  "silence example_bot = False
   \<and> length (filter (is_mute True)
        (new_events example_bot (snd (trigger_censor mute_fails_env example_cfg example_bot)))) = 1
   \<and> length (filter is_pick
        (new_events example_bot (snd (trigger_censor mute_fails_env example_cfg example_bot)))) = 0
   \<and> length (filter (is_mute True)
        (new_events example_bot (snd (trigger_censor hide_fails_env example_cfg example_bot)))) = 1
   \<and> length (filter (is_mute False)
        (new_events example_bot (snd (trigger_censor hide_fails_env example_cfg example_bot)))) = 0
   \<and> muted (ws (snd (trigger_censor hide_fails_env example_cfg example_bot))) ''Mic''"
  by (intro conjI; code_simp)

text \<open>
  C8: in a session, the overlay is never enabled in OBS while the microphone is not
  muted, provided that held when the session began. When the session reaches the
  request that shows the overlay, its events are, in this order: the successful mute
  request, the pick, the successful file request, the show request, the sleep (when the
  overlay was shown and the sleep returns: its duration is not negative, fits the C
  time type and is accepted by the operating system), the hide request, and only after
  a successful hide the unmute request.
\<close>

theorem trigger_censor_nested_order:
  assumes idle: "\<not> silence s" and run: "trigger_censor e c s = (r', s')"
    and init: "covered c s (ws s)"
  shows "(\<forall>ob\<in>set (obs_states (ws s) (new_events s s')). covered c s ob)
    \<and> (\<forall>ok. Request (enable_cat s True) ok \<in> set (new_events s s') \<longrightarrow>
         (\<exists>v hid um. new_events s s' =
              [Request (mute_mic c True) True, PickCatVideo (Inr v),
               Request (set_file c v) True, Request (enable_cat s True) ok]
              @ (if ok \<and> sleep_returns e
                           (trace s @ [Request (mute_mic c True) True, PickCatVideo (Inr v),
                                       Request (set_file c v) True,
                                       Request (enable_cat s True) True])
                           (cat_visible_seconds c)
                 then [Sleep (cat_visible_seconds c)] else [])
              @ [Request (enable_cat s False) hid]
              @ (if hid then [Request (mute_mic c False) um] else [])))"
proof -
  from idle run obtain r s1 r2 where tr: "trigger_try e c (s\<lparr>silence := True\<rparr>) = (r, s1)"
    and fin: "trigger_finally e c s1 = (r2, s')"
    and res: "r' = (case r2 of Some x \<Rightarrow> Some x | None \<Rightarrow> r)"
    by (rule trigger_censor_parts)
  show ?thesis
    by (insert init; rule trigger_try_cases [OF tr]; rule trigger_finally_cases [OF fin];
        simp add: new_events_def covered_def ex_bool_eq)
qed

theorem trigger_censor_nested_order_witness:
  "\<not> silence example_bot \<and> covered example_cfg example_bot (ws example_bot)
   \<and> Request (enable_cat example_bot True) True
        \<in> set (new_events example_bot (snd (trigger_censor example_env example_cfg example_bot)))
   \<and> new_events example_bot (snd (trigger_censor example_env example_cfg example_bot)) =
        [Request (SetInputMute ''Mic'' True) True, PickCatVideo (Inr (u ''cats/sneeze.mp4'')),
         Request (SetInputSettings ''Cat'' (u ''cats/sneeze.mp4'') False) True,
         Request (SetSceneItemEnabled ''Scene'' 7 True) True,
         Sleep 4,
         Request (SetSceneItemEnabled ''Scene'' 7 False) True,
         Request (SetInputMute ''Mic'' False) True]
   \<and> (\<exists>v hid um. new_events example_bot (snd (trigger_censor example_env example_cfg example_bot)) =
              [Request (mute_mic example_cfg True) True, PickCatVideo (Inr v),
               Request (set_file example_cfg v) True, Request (enable_cat example_bot True) True]
              @ (if True \<and> sleep_returns example_env
                           (trace example_bot
                              @ [Request (mute_mic example_cfg True) True, PickCatVideo (Inr v),
                                 Request (set_file example_cfg v) True,
                                 Request (enable_cat example_bot True) True])
                           (cat_visible_seconds example_cfg)
                 then [Sleep (cat_visible_seconds example_cfg)] else [])
              @ [Request (enable_cat example_bot False) hid]
              @ (if hid then [Request (mute_mic example_cfg False) um] else []))"
proof -
  let ?s' = "snd (trigger_censor example_env example_cfg example_bot)"
  have idle: "\<not> silence example_bot" by code_simp
  have "fst (trigger_censor example_env example_cfg example_bot) = None" by code_simp
  then have run: "trigger_censor example_env example_cfg example_bot = (None, ?s')"
    by (simp add: prod_eq_iff)
  have init: "covered example_cfg example_bot (ws example_bot)" by code_simp
  have shown: "Request (enable_cat example_bot True) True \<in> set (new_events example_bot ?s')"
    by code_simp
  have evs: "new_events example_bot ?s' =
        [Request (SetInputMute ''Mic'' True) True, PickCatVideo (Inr (u ''cats/sneeze.mp4'')),
         Request (SetInputSettings ''Cat'' (u ''cats/sneeze.mp4'') False) True,
         Request (SetSceneItemEnabled ''Scene'' 7 True) True,
         Sleep 4,
         Request (SetSceneItemEnabled ''Scene'' 7 False) True,
         Request (SetInputMute ''Mic'' False) True]"
    by code_simp
  from trigger_censor_nested_order [OF idle run init] idle init shown evs
  show ?thesis by blast
qed

text \<open>
  C5, as the code has it: when the first mute request raises, the \<open>silence\<close> flag is
  already set and the \<open>finally\<close> block runs all the same: the hide request is sent and,
  when it succeeds, the unmute request. When both succeed the flag is cleared,
  \<open>Unmuted\<close> is printed and the exception of the mute request leaves the method;
  otherwise the flag stays set and the exception of the failing cleanup request leaves
  it. No other line is printed.
\<close>

theorem trigger_censor_mute_fails:
  assumes idle: "\<not> silence s"
    and mute: "\<not> ws_ok e (trace s) (mute_mic c True)"
  shows "\<exists>x s'. trigger_censor e c s = (Some x, s')
      \<and> silence (snd (trigger_try e c (s\<lparr>silence := True\<rparr>)))
      \<and> (x = ObsError (enable_cat s False)
            \<and> new_events s s' = [Request (mute_mic c True) False,
                                  Request (enable_cat s False) False]
            \<and> silence s' \<and> stdout s' = stdout s
          \<or> x = ObsError (mute_mic c False)
            \<and> new_events s s' = [Request (mute_mic c True) False,
                                  Request (enable_cat s False) True,
                                  Request (mute_mic c False) False]
            \<and> silence s' \<and> stdout s' = stdout s
          \<or> x = ObsError (mute_mic c True)
            \<and> new_events s s' = [Request (mute_mic c True) False,
                                  Request (enable_cat s False) True,
                                  Request (mute_mic c False) True]
            \<and> \<not> silence s' \<and> stdout s' = stdout s @ [Unmuted])"
proof -
  define s1 where "s1 = s\<lparr>silence := True, trace := trace s @ [Request (mute_mic c True) False]\<rparr>"
  from mute have tr: "trigger_try e c (s\<lparr>silence := True\<rparr>) = (Some (ObsError (mute_mic c True)), s1)"
    by (simp add: trigger_try_def andthen_def request_def s1_def)
  obtain r2 s2 where fin: "trigger_finally e c s1 = (r2, s2)"
    by (cases "trigger_finally e c s1")
  from idle tr fin
  have run: "trigger_censor e c s =
      (case r2 of Some x \<Rightarrow> Some x | None \<Rightarrow> Some (ObsError (mute_mic c True)), s2)"
    by (simp add: trigger_censor_def split: option.splits)
  have busy: "silence (snd (trigger_try e c (s\<lparr>silence := True\<rparr>)))"
    by (simp add: tr s1_def)
  show ?thesis
    unfolding run
    by (insert busy; rule trigger_finally_cases [OF fin]; simp add: new_events_def s1_def)
qed

theorem trigger_censor_mute_fails_witness:
  "\<not> silence example_bot
   \<and> \<not> ws_ok mute_fails_env (trace example_bot) (mute_mic example_cfg True)
   \<and> (\<exists>x s'. trigger_censor mute_fails_env example_cfg example_bot = (Some x, s')
         \<and> silence (snd (trigger_try mute_fails_env example_cfg (example_bot\<lparr>silence := True\<rparr>)))
         \<and> Request (enable_cat example_bot False) True \<in> set (new_events example_bot s'))"
proof -
  have idle: "\<not> silence example_bot" by code_simp
  have mute: "\<not> ws_ok mute_fails_env (trace example_bot) (mute_mic example_cfg True)"
    by code_simp
  from trigger_censor_mute_fails [OF idle mute] obtain x s'
    where run: "trigger_censor mute_fails_env example_cfg example_bot = (Some x, s')"
    and busy: "silence (snd (trigger_try mute_fails_env example_cfg (example_bot\<lparr>silence := True\<rparr>)))"
    by blast
  have "Request (enable_cat example_bot False) True
      \<in> set (new_events example_bot (snd (trigger_censor mute_fails_env example_cfg example_bot)))"
    by code_simp
  with run have "Request (enable_cat example_bot False) True \<in> set (new_events example_bot s')"
    by simp
  with idle mute run busy show ?thesis by blast
qed

theorem trigger_censor_mute_fails_counterexample:
  "fst (trigger_censor mute_fails_env example_cfg example_bot)
     = Some (ObsError (SetInputMute ''Mic'' True))
   \<and> silence (snd (trigger_try mute_fails_env example_cfg (example_bot\<lparr>silence := True\<rparr>)))
   \<and> trace (snd (trigger_censor mute_fails_env example_cfg example_bot))
     = [Request (SetInputMute ''Mic'' True) False,
        Request (SetSceneItemEnabled ''Scene'' 7 False) True,
        Request (SetInputMute ''Mic'' False) True]
   \<and> stdout (snd (trigger_censor mute_fails_env example_cfg example_bot))
     = [MadeBy, Connected, Unmuted]"
  by (intro conjI; code_simp)

section \<open>The frame queue has no bound\<close>

text \<open>
  C3, as the code has it: the queue is built by \<open>queue.Queue()\<close>, whose size limit 0
  means no limit (every bot is built with it: \<open>new_bot_unbounded\<close>). With such a queue
  no call of \<open>_audio_callback\<close> blocks: whatever blocks the capture stream delivers while
  nothing is consumed, all of them are appended in order, and the queue grows by their
  number.
\<close>

theorem audio_queue_unbounded:
  assumes "maxsize (audio_queue s) \<le> 0"
  shows "\<exists>s'. capture bs s = Some s'
          \<and> items (audio_queue s') = items (audio_queue s) @ map fst bs
          \<and> qsize (audio_queue s') = qsize (audio_queue s) + length bs
          \<and> maxsize (audio_queue s') = maxsize (audio_queue s)"
  using assms
proof (induction bs arbitrary: s)
  case Nil
  then show ?case by simp
next
  case (Cons b bs)
  obtain indata status where b: "b = (indata, status)" by (cases b)
  define s1 where "s1 = s\<lparr>stdout := (if status then stdout s @ [Status] else stdout s),
            audio_queue := (audio_queue s)\<lparr>items := items (audio_queue s) @ [indata]\<rparr>\<rparr>"
  from Cons.prems have step: "audio_callback indata status s = Some s1"
    unfolding s1_def by (rule audio_callback_unbounded)
  have "maxsize (audio_queue s1) \<le> 0" using Cons.prems by (simp add: s1_def)
  from Cons.IH [OF this] obtain s' where "capture bs s1 = Some s'"
    and "items (audio_queue s') = items (audio_queue s1) @ map fst bs"
    and "qsize (audio_queue s') = qsize (audio_queue s1) + length bs"
    and "maxsize (audio_queue s') = maxsize (audio_queue s1)"
    by blast
  with b step show ?case by (simp add: s1_def qsize_def)
qed

theorem audio_queue_unbounded_witness:
  "maxsize (audio_queue example_bot) \<le> 0
   \<and> (\<exists>s'. capture [(''a'', False), (''b'', True), (''c'', False)] example_bot = Some s'
          \<and> items (audio_queue s') = [''a'', ''b'', ''c'']
          \<and> qsize (audio_queue s') = 3)"
proof -
  have unbounded: "maxsize (audio_queue example_bot) \<le> 0" by code_simp
  have empty: "items (audio_queue example_bot) = []" by code_simp
  from audio_queue_unbounded [OF unbounded, of "[(''a'', False), (''b'', True), (''c'', False)]"]
  obtain s' where "capture [(''a'', False), (''b'', True), (''c'', False)] example_bot = Some s'"
    and "items (audio_queue s') = items (audio_queue example_bot)
            @ map fst [(''a'', False), (''b'', True), (''c'', False)]"
    and "qsize (audio_queue s') = qsize (audio_queue example_bot)
            + length [(''a'', False), (''b'', True), (''c'', False)]"
    by blast
  with unbounded empty show ?thesis by (simp add: qsize_def)
qed

theorem audio_queue_unbounded_counterexample:
  "new_bot example_env empty_fs example_cfg ''Scene'' 7 quiet_obs = Inr example_bot
   \<and> maxsize (audio_queue example_bot) = 0
   \<and> capture [(''a'', False), (''b'', False), (''c'', False)] example_bot \<noteq> None
   \<and> qsize (audio_queue (the (capture [(''a'', False), (''b'', False), (''c'', False)] example_bot))) = 3
   \<and> \<not> full (audio_queue (the (capture [(''a'', False), (''b'', False), (''c'', False)] example_bot)))"
proof -
  have "new_bot example_env empty_fs example_cfg ''Scene'' 7 quiet_obs = Inr example_bot"
    by (simp add: new_bot_def load_swear_words_def empty_fs_def example_cfg_def is_file_def
          example_bot_def)
  moreover have "maxsize (audio_queue example_bot) = 0" by code_simp
  moreover have "capture [(''a'', False), (''b'', False), (''c'', False)] example_bot \<noteq> None"
    by (simp add: audio_callback_def put_def full_def example_bot_def Queue_def)
  moreover have "qsize (audio_queue (the (capture [(''a'', False), (''b'', False), (''c'', False)] example_bot))) = 3"
    by (simp add: audio_callback_def put_def full_def example_bot_def Queue_def qsize_def)
  moreover have "\<not> full (audio_queue (the (capture [(''a'', False), (''b'', False), (''c'', False)] example_bot)))"
    by (simp add: audio_callback_def put_def full_def example_bot_def Queue_def qsize_def)
  ultimately show ?thesis by (intro conjI)
qed

section \<open>Exceptions in the recognition loop\<close>

text \<open>
  C9, as the code has it: when the recogniser raises on a block, nothing catches the
  exception. Whatever the number of passes allowed, the loop ends with that exception;
  the block has been taken from the queue, nothing is printed, and the blocks behind it
  stay in the queue.
\<close>

theorem decoder_error_ends_loop:
  assumes "\<not> stop_event s"
    and "get (audio_queue s) = Some (data, q)"
    and "accept_waveform e (heard s) data = Raises"
  shows "recognition_loop e c (Suc n) s = (Died DecoderError, s\<lparr>audio_queue := q\<rparr>)"
  using assms by (simp add: loop_body_def)

theorem decoder_error_ends_loop_witness:
  "\<not> stop_event noisy_bot
   \<and> get (audio_queue noisy_bot) = Some (''zzz'', \<lparr>maxsize = 0, items = [''damn'']\<rparr>)
   \<and> accept_waveform deaf_env (heard noisy_bot) ''zzz'' = Raises
   \<and> recognition_loop deaf_env example_cfg (Suc 4) noisy_bot
       = (Died DecoderError, noisy_bot\<lparr>audio_queue := \<lparr>maxsize = 0, items = [''damn'']\<rparr>\<rparr>)"
proof -
  have a: "\<not> stop_event noisy_bot" by code_simp
  have b: "get (audio_queue noisy_bot) = Some (''zzz'', \<lparr>maxsize = 0, items = [''damn'']\<rparr>)"
    by (simp add: get_def noisy_bot_def)
  have c: "accept_waveform deaf_env (heard noisy_bot) ''zzz'' = Raises" by code_simp
  from decoder_error_ends_loop [OF a b c, of example_cfg 4] a b c
  show ?thesis by (intro conjI)
qed

theorem decoder_error_ends_loop_counterexample:
  "fst (recognition_loop deaf_env example_cfg 5 noisy_bot) = Died DecoderError
   \<and> items (audio_queue (snd (recognition_loop deaf_env example_cfg 5 noisy_bot))) = [''damn'']
   \<and> heard (snd (recognition_loop deaf_env example_cfg 5 noisy_bot)) = []
   \<and> stdout (snd (recognition_loop deaf_env example_cfg 5 noisy_bot)) = [MadeBy, Connected]"
  by (intro conjI; code_simp)

text \<open>
  C4, as the code has it: a final result with profanity arrives while the folder holds no
  file with a video suffix, and the mute request and the cleanup requests succeed.
  Then the events are: mute, the pick raising \<open>SystemExit\<close>, the request that
  disables the overlay, unmute. The overlay is never enabled, the flag is cleared and
  \<open>Unmuted\<close> is the only line printed after the detection. The \<open>SystemExit\<close> leaves
  \<open>_trigger_censor\<close> and ends the loop, whatever the number of passes allowed; the
  blocks behind stay in the queue.
\<close>

theorem no_video_ends_loop:
  assumes run: "\<not> stop_event s" and idle: "\<not> silence s"
    and frame: "get (audio_queue s) = Some (data, q)"
    and final: "accept_waveform e (heard s) data = Final t"
    and prof: "bad (str_lower e t) (swear_words s) \<noteq> {}"
    and mute: "ws_ok e (trace s) (mute_mic c True)"
    and dir: "iterdir e (trace s @ [Request (mute_mic c True) True]) (cat_folder c) = Some ps"
    and novid: "\<forall>p\<in>set ps. str_lower e (path_suffix p) \<notin> video_suffixes"
    and hide: "\<forall>tr. ws_ok e tr (enable_cat s False)"
    and unmute: "\<forall>tr. ws_ok e tr (mute_mic c False)"
  shows "\<exists>s'. recognition_loop e c (Suc n) s = (Died no_video_files, s')
      \<and> new_events s s' = [Request (mute_mic c True) True, PickCatVideo (Inl no_video_files),
                            Request (enable_cat s False) True, Request (mute_mic c False) True]
      \<and> stdout s' = stdout s @ [Result t, Detected (bad (str_lower e t) (swear_words s)), Unmuted]
      \<and> audio_queue s' = q \<and> heard s' = heard s @ [data]
      \<and> \<not> silence s' \<and> \<not> enabled (ws s') (cat_item s) \<and> \<not> muted (ws s') (mic_source_name c)"
proof -
  define sd where "sd = at_detection e s data q t"
  have sd: "trace sd = trace s" "ws sd = ws s" "scene_name sd = scene_name s"
    "cat_item_id sd = cat_item_id s" "silence sd = silence s"
    by (simp_all add: sd_def at_detection_def)
  define s1 where "s1 = sd\<lparr>silence := True, ws := obs_apply (mute_mic c True) (ws sd),
      trace := trace sd @ [Request (mute_mic c True) True, PickCatVideo (Inl no_video_files)]\<rparr>"
  from novid have "filter (\<lambda>p. str_lower e (path_suffix p) \<in> video_suffixes) ps = []"
    by (simp add: filter_empty_conv)
  with mute dir sd have tr: "trigger_try e c (sd\<lparr>silence := True\<rparr>) = (Some no_video_files, s1)"
    by (simp add: trigger_try_def andthen_def request_def pick_cat_video_def s1_def Let_def)
  from hide unmute sd
  have fin: "trigger_finally e c s1 =
     (None, s1\<lparr>ws := obs_apply (mute_mic c False) (obs_apply (enable_cat s1 False) (ws s1)),
               trace := trace s1 @ [Request (enable_cat s1 False) True,
                                    Request (mute_mic c False) True],
               silence := False,
               stdout := stdout s1 @ [Unmuted]\<rparr>)"
    by (intro trigger_finally_ok) (simp_all add: s1_def)
  from idle sd tr fin
  have "trigger_censor e c sd =
     (Some no_video_files,
      s1\<lparr>ws := obs_apply (mute_mic c False) (obs_apply (enable_cat s1 False) (ws s1)),
         trace := trace s1 @ [Request (enable_cat s1 False) True,
                              Request (mute_mic c False) True],
         silence := False,
         stdout := stdout s1 @ [Unmuted]\<rparr>)"
    by (simp add: trigger_censor_def)
  with loop_body_detect [OF frame final prof, of c]
  have "loop_body e c s =
     (Some no_video_files,
      s1\<lparr>ws := obs_apply (mute_mic c False) (obs_apply (enable_cat s1 False) (ws s1)),
         trace := trace s1 @ [Request (enable_cat s1 False) True,
                              Request (mute_mic c False) True],
         silence := False,
         stdout := stdout s1 @ [Unmuted]\<rparr>)"
    by (simp add: sd_def)
  from recognition_loop_dies [OF run this, of n] show ?thesis
    by (simp add: new_events_def s1_def sd_def at_detection_def)
qed

theorem no_video_ends_loop_counterexample:
  "fst (recognition_loop no_video_env example_cfg 5 listening_bot) = Died no_video_files
   \<and> Request (SetSceneItemEnabled ''Scene'' 7 False) True
        \<in> set (trace (snd (recognition_loop no_video_env example_cfg 5 listening_bot)))
   \<and> stdout (snd (recognition_loop no_video_env example_cfg 5 listening_bot))
        = [MadeBy, Connected, Result (u ''well damn it''), Detected {u ''damn''}, Unmuted]
   \<and> items (audio_queue (snd (recognition_loop no_video_env example_cfg 5 listening_bot)))
        = [''oh shit'']"
  by (intro conjI; code_simp)

theorem no_video_ends_loop_witness:
  "\<not> stop_event listening_bot \<and> \<not> silence listening_bot
   \<and> get (audio_queue listening_bot)
        = Some (''well damn it'', \<lparr>maxsize = 0, items = [''oh shit'']\<rparr>)
   \<and> accept_waveform no_video_env (heard listening_bot) ''well damn it''
        = Final (u ''well damn it'')
   \<and> bad (str_lower no_video_env (u ''well damn it'')) (swear_words listening_bot) \<noteq> {}
   \<and> iterdir no_video_env (trace listening_bot @ [Request (mute_mic example_cfg True) True])
         (cat_folder example_cfg) = Some [u ''cats/notes.txt'']
   \<and> str_lower no_video_env (path_suffix (u ''cats/notes.txt'')) \<notin> video_suffixes
   \<and> (\<exists>s'. recognition_loop no_video_env example_cfg (Suc 4) listening_bot
               = (Died no_video_files, s')
          \<and> new_events listening_bot s'
               = [Request (mute_mic example_cfg True) True, PickCatVideo (Inl no_video_files),
                  Request (enable_cat listening_bot False) True,
                  Request (mute_mic example_cfg False) True]
          \<and> audio_queue s' = \<lparr>maxsize = 0, items = [''oh shit'']\<rparr>
          \<and> \<not> silence s')"
proof -
  have run: "\<not> stop_event listening_bot" by code_simp
  have idle: "\<not> silence listening_bot" by code_simp
  have frame: "get (audio_queue listening_bot)
        = Some (''well damn it'', \<lparr>maxsize = 0, items = [''oh shit'']\<rparr>)"
    by (simp add: get_def listening_bot_def)
  have final: "accept_waveform no_video_env (heard listening_bot) ''well damn it''
        = Final (u ''well damn it'')" by code_simp
  have prof: "bad (str_lower no_video_env (u ''well damn it'')) (swear_words listening_bot) \<noteq> {}"
    by code_simp
  have mute: "ws_ok no_video_env (trace listening_bot) (mute_mic example_cfg True)" by code_simp
  have dir: "iterdir no_video_env (trace listening_bot @ [Request (mute_mic example_cfg True) True])
         (cat_folder example_cfg) = Some [u ''cats/notes.txt'']" by code_simp
  have suffix: "str_lower no_video_env (path_suffix (u ''cats/notes.txt'')) \<notin> video_suffixes"
    by code_simp
  then have novid: "\<forall>p\<in>set [u ''cats/notes.txt''].
      str_lower no_video_env (path_suffix p) \<notin> video_suffixes"
    by simp
  have hide: "\<forall>tr. ws_ok no_video_env tr (enable_cat listening_bot False)"
    by (simp add: no_video_env_def example_env_def)
  have unmute: "\<forall>tr. ws_ok no_video_env tr (mute_mic example_cfg False)"
    by (simp add: no_video_env_def example_env_def)
  from no_video_ends_loop [OF run idle frame final prof mute dir novid hide unmute, of 4]
  obtain s' where "recognition_loop no_video_env example_cfg (Suc 4) listening_bot
               = (Died no_video_files, s')"
    and "new_events listening_bot s'
               = [Request (mute_mic example_cfg True) True, PickCatVideo (Inl no_video_files),
                  Request (enable_cat listening_bot False) True,
                  Request (mute_mic example_cfg False) True]"
    and "audio_queue s' = \<lparr>maxsize = 0, items = [''oh shit'']\<rparr>"
    and "\<not> silence s'"
    by blast
  with run idle frame final prof dir suffix show ?thesis by blast
qed



section \<open>Profanity detection\<close>



end
